theory Spec2Isabelle
  imports Main "HOL-Library.Sublist" "HOL-Library.Multiset"
begin

section \<open>The JavaScript operations the generator uses\<close>

text \<open>
  A string is the sequence of its code units. The generator only compares against,
  and cuts off, the ASCII literal \<^verbatim>\<open>Items\<close>, so \<^verbatim>\<open>startsWith\<close> is a comparison
  of the first code units and \<^verbatim>\<open>slice(n)\<close> drops \<open>n\<close> of them (it yields the empty
  string when the receiver is shorter, as \<open>drop\<close> does).
\<close>

definition startsWith :: "string \<Rightarrow> string \<Rightarrow> bool" where
  "startsWith s searchString \<longleftrightarrow> take (length searchString) s = searchString"

definition slice :: "string \<Rightarrow> nat \<Rightarrow> string" where
  "slice s start = drop start s"

text \<open>\<^verbatim>\<open>Array.prototype.push\<close> appends at the end; \<^verbatim>\<open>Array.prototype.join\<close> puts the
  separator between neighbours only, and yields the empty string for the empty array.\<close>

definition push :: "'a list \<Rightarrow> 'a \<Rightarrow> 'a list" where
  "push xs x = xs @ [x]"

fun join :: "string list \<Rightarrow> string \<Rightarrow> string" where
  "join [] separator = []"
| "join [x] separator = x"
| "join (x # y # ys) separator = x @ separator @ join (y # ys) separator"


section \<open>Data model\<close>

text \<open>
  \<^verbatim>\<open>EnrichedOpenAPI3\<close> (cli.ts, lines 89 to 97): every entry of
  \<^verbatim>\<open>components.schemas\<close> carries the string annotation \<^verbatim>\<open>x-collection\<close>. The rest of
  an entry is never read by the generator.
\<close>

record schema =
  x_collection :: string

text \<open>
  A JavaScript object enumerates its string keys in one fixed order, which
  \<^verbatim>\<open>Object.keys\<close> and \<^verbatim>\<open>Object.entries\<close> both follow. The schema map is therefore the
  list of its entries in that order.
\<close>

type_synonym schemas = "(string \<times> schema) list"

definition Object_keys :: "schemas \<Rightarrow> string list" where
  "Object_keys obj = map fst obj"

definition Object_entries :: "schemas \<Rightarrow> (string \<times> schema) list" where
  "Object_entries obj = obj"

text \<open>An element of the error list has the type \<^verbatim>\<open>unknown\<close>: an opaque JSON value,
  kept as its text.\<close>

datatype unknown = Unknown string

text \<open>
  \<^verbatim>\<open>SpecResponse\<close> (cli.ts, lines 99 to 101) is the union of a schema document and an
  error document. Of the parsed body the generator reads two things: whether an
  \<^verbatim>\<open>errors\<close> property is present (and then its list), and \<^verbatim>\<open>components.schemas\<close>,
  which an error document does not have.
\<close>

record SpecResponse =
  errors :: "unknown list option"
  components_schemas :: "schemas option"

text \<open>The parsed command line (\<^verbatim>\<open>Argv\<close>, cli.ts lines 10 to 20); \<^verbatim>\<open>specOutFile\<close> is
  nullish when the flag is absent.\<close>

record Argv =
  host :: string
  email :: string
  password :: string
  passwordIsStaticToken :: bool
  appTypeName :: string
  directusTypeName :: string
  allTypeName :: string
  specOutFile :: "string option"
  outFile :: string


section \<open>Schema partitioner, cli.ts (name-rewrite policy)\<close>

text \<open>Lines 140 to 148: the two variables the \<^verbatim>\<open>if\<close> assigns, as functions of the key.\<close>

definition isAppCollection :: "string \<Rightarrow> bool" where
  "isAppCollection schemaKey = (if startsWith schemaKey ''Items'' then True else False)"

definition formatedSchemaKey :: "string \<Rightarrow> string" where
  "formatedSchemaKey schemaKey =
     (if startsWith schemaKey ''Items'' then ''App'' @ slice schemaKey 5
      else ''Directus'' @ schemaKey)"

text \<open>Line 151 and line 159: the two template literals.\<close>

definition propertyLine :: "string \<Rightarrow> string" where
  \<open>propertyLine schemaKey =
     ''  "'' @ formatedSchemaKey schemaKey @ ''": components["schemas"]["'' @ schemaKey @ ''"];''\<close>

definition exportLine :: "string \<Rightarrow> string" where
  \<open>exportLine schemaKey =
     ''export type '' @ formatedSchemaKey schemaKey @ '' = components["schemas"]["''
       @ schemaKey @ ''"];''\<close>

text \<open>The three arrays the loop fills (lines 133 to 135).\<close>

record collections_ts =
  exportAppCollectionsProperties :: "string list"
  exportDirectusCollectionsProperties :: "string list"
  exportAllCollectionsLines :: "string list"

definition collections_ts_init :: collections_ts where
  "collections_ts_init =
     \<lparr>exportAppCollectionsProperties = [],
      exportDirectusCollectionsProperties = [],
      exportAllCollectionsLines = []\<rparr>"

text \<open>One pass of the loop body (lines 139 to 161).\<close>

definition loop_body_ts :: "collections_ts \<Rightarrow> string \<Rightarrow> collections_ts" where
  "loop_body_ts st schemaKey =
     (let st1 =
        (if isAppCollection schemaKey
         then st\<lparr>exportAppCollectionsProperties :=
                   push (exportAppCollectionsProperties st) (propertyLine schemaKey)\<rparr>
         else st\<lparr>exportDirectusCollectionsProperties :=
                   push (exportDirectusCollectionsProperties st) (propertyLine schemaKey)\<rparr>)
      in if schemaKey \<noteq> ''x-metadata''
         then st1\<lparr>exportAllCollectionsLines :=
                    push (exportAllCollectionsLines st1) (exportLine schemaKey)\<rparr>
         else st1)"

text \<open>The \<^verbatim>\<open>for ... of\<close> loop over the keys (line 137).\<close>

fun for_schemaKey_ts :: "collections_ts \<Rightarrow> string list \<Rightarrow> collections_ts" where
  "for_schemaKey_ts st [] = st"
| "for_schemaKey_ts st (schemaKey # rest) = for_schemaKey_ts (loop_body_ts st schemaKey) rest"

definition partition_ts :: "schemas \<Rightarrow> collections_ts" where
  "partition_ts obj = for_schemaKey_ts collections_ts_init (Object_keys obj)"


section \<open>Schema partitioner, cli.js (annotation-driven policy)\<close>

text \<open>Lines 84 to 86 of the compiled script: the property is named by the entry's
  \<^verbatim>\<open>x-collection\<close> annotation and is not quoted.\<close>

definition line_js :: "string \<Rightarrow> schema \<Rightarrow> string" where
  \<open>line_js schemaKey sch =
     ''  '' @ x_collection sch @ '': components["schemas"]["'' @ schemaKey @ ''"];''\<close>

definition isUserCollection :: "string \<Rightarrow> bool" where
  "isUserCollection schemaKey = startsWith schemaKey ''Items''"

record collections_js =
  exportUserCollectionsProperties :: "string list"
  exportDirectusCollectionsProperties_js :: "string list"

definition collections_js_init :: collections_js where
  "collections_js_init =
     \<lparr>exportUserCollectionsProperties = [], exportDirectusCollectionsProperties_js = []\<rparr>"

definition loop_body_js :: "collections_js \<Rightarrow> string \<times> schema \<Rightarrow> collections_js" where
  "loop_body_js st entry =
     (case entry of (schemaKey, sch) \<Rightarrow>
        if isUserCollection schemaKey
        then st\<lparr>exportUserCollectionsProperties :=
                  push (exportUserCollectionsProperties st) (line_js schemaKey sch)\<rparr>
        else st\<lparr>exportDirectusCollectionsProperties_js :=
                  push (exportDirectusCollectionsProperties_js st) (line_js schemaKey sch)\<rparr>)"

fun for_entry_js :: "collections_js \<Rightarrow> (string \<times> schema) list \<Rightarrow> collections_js" where
  "for_entry_js st [] = st"
| "for_entry_js st (entry # rest) = for_entry_js (loop_body_js st entry) rest"

definition partition_js :: "schemas \<Rightarrow> collections_js" where
  "partition_js obj = for_entry_js collections_js_init (Object_entries obj)"


section \<open>Declaration assembler\<close>

text \<open>The three aggregate declarations are the same template literals in both scripts
  (cli.ts lines 166 to 174, cli.js lines 91 to 93).\<close>

definition exportAppCollectionsType :: "Argv \<Rightarrow> string list \<Rightarrow> string" where
  "exportAppCollectionsType argv props =
     ''export type '' @ appTypeName argv @ '' = {\<newline>'' @ join props ''\<newline>'' @ ''\<newline>};\<newline>''"

definition exportDirectusCollectionsType :: "Argv \<Rightarrow> string list \<Rightarrow> string" where
  "exportDirectusCollectionsType argv props =
     ''export type '' @ directusTypeName argv @ '' = {\<newline>'' @ join props ''\<newline>'' @ ''\<newline>};\<newline>''"

definition exportCollectionsType :: "Argv \<Rightarrow> string" where
  "exportCollectionsType argv =
     ''export type '' @ allTypeName argv @ '' = '' @ directusTypeName argv @ '' & ''
       @ appTypeName argv @ '';\<newline>''"

text \<open>cli.ts, line 164.\<close>

definition exportAllCollectionsTypes :: "collections_ts \<Rightarrow> string" where
  "exportAllCollectionsTypes st = join (exportAllCollectionsLines st) ''\<newline>''"

text \<open>cli.ts, lines 176 to 184: the output is wrapped in a global declaration block.\<close>

definition source_ts :: "Argv \<Rightarrow> string \<Rightarrow> schemas \<Rightarrow> string" where
  "source_ts argv baseSource obj =
     (let st = partition_ts obj in
      join [''declare global {'',
            baseSource,
            exportAppCollectionsType argv (exportAppCollectionsProperties st),
            exportDirectusCollectionsType argv (exportDirectusCollectionsProperties st),
            exportCollectionsType argv,
            exportAllCollectionsTypes st,
            ''}''] ''\<newline>'')"

text \<open>cli.js, lines 94 to 99: no wrapping, no aliases.\<close>

definition source_js :: "Argv \<Rightarrow> string \<Rightarrow> schemas \<Rightarrow> string" where
  "source_js argv baseSource obj =
     (let st = partition_js obj in
      join [baseSource,
            exportAppCollectionsType argv (exportUserCollectionsProperties st),
            exportDirectusCollectionsType argv (exportDirectusCollectionsProperties_js st),
            exportCollectionsType argv] ''\<newline>'')"


section \<open>The run: network, console and file effects\<close>

text \<open>
  What a run does to the outside is recorded as the list of its calls, in order. What
  the outside answers is a parameter: the login endpoint, the spec endpoint, the
  converter \<^verbatim>\<open>openApiTs\<close>, \<^verbatim>\<open>JSON.stringify\<close>, \<^verbatim>\<open>resolve\<close> and \<^verbatim>\<open>writeFile\<close>. A rejected
  promise or a thrown exception is a value of \<open>error\<close>; nothing in the script catches
  one, so the first error ends the run.
\<close>

datatype error =
    Error string
  | TypeError
  | Rejected string

datatype event =
    FetchLogin string string string
  | FetchSpec string string
  | ConsoleError "unknown list"
  | OpenApiTs SpecResponse
  | WriteFile string string

record world =
  fetch_login :: "string \<Rightarrow> string \<Rightarrow> string \<Rightarrow> error + string"
  fetch_spec :: "string \<Rightarrow> string \<Rightarrow> error + SpecResponse"
  openApiTs :: "SpecResponse \<Rightarrow> error + string"
  JSON_stringify :: "SpecResponse \<Rightarrow> string"
  resolve :: "string \<Rightarrow> string"
  writeFile :: "string \<Rightarrow> string \<Rightarrow> error option"

type_synonym 'a io = "event list \<times> (error + 'a)"

definition return_io :: "'a \<Rightarrow> 'a io" where
  "return_io x = ([], Inr x)"

definition throw :: "error \<Rightarrow> 'a io" where
  "throw e = ([], Inl e)"

definition call :: "event \<Rightarrow> error + 'a \<Rightarrow> 'a io" where
  "call ev answer = ([ev], answer)"

definition io_bind :: "'a io \<Rightarrow> ('a \<Rightarrow> 'b io) \<Rightarrow> 'b io" where
  "io_bind m f =
     (case m of
        (evs, Inl e) \<Rightarrow> (evs, Inl e)
      | (evs, Inr x) \<Rightarrow> (case f x of (evs', r) \<Rightarrow> (evs @ evs', r)))"

text \<open>Lines 67 to 87: the bearer credential. The login request is the only call here;
  its answer stands for \<^verbatim>\<open>json.data.access_token\<close>.\<close>

definition token :: "world \<Rightarrow> Argv \<Rightarrow> string io" where
  "token w argv =
     (if passwordIsStaticToken argv then return_io (password argv)
      else call (FetchLogin (host argv) (email argv) (password argv))
             (fetch_login w (host argv) (email argv) (password argv)))"

text \<open>Lines 103 to 110: the spec request, with its URL and its \<^verbatim>\<open>Authorization\<close> header.\<close>

definition spec :: "world \<Rightarrow> Argv \<Rightarrow> string \<Rightarrow> SpecResponse io" where
  "spec w argv tok =
     call (FetchSpec (host argv @ ''/server/specs/oas'') (''Bearer '' @ tok))
       (fetch_spec w (host argv @ ''/server/specs/oas'') (''Bearer '' @ tok))"

text \<open>Lines 112 to 117. The condition is \<^verbatim>\<open>'errors' in spec && spec.errors.length\<close>:
  the property is present and its length is not zero.\<close>

definition assertSpecHasNoErrors :: "SpecResponse \<Rightarrow> unit io" where
  "assertSpecHasNoErrors sp =
     (case errors sp of
        None \<Rightarrow> return_io ()
      | Some es \<Rightarrow>
          if length es \<noteq> 0
          then io_bind (call (ConsoleError es) (Inr ()))
                 (\<lambda>_. throw (Error ''Could not generate TypeScript definitions''))
          else return_io ())"

text \<open>Lines 121 to 129: the optional dump. A string is truthy when it is not empty.\<close>

definition await_writeFile :: "world \<Rightarrow> string \<Rightarrow> string \<Rightarrow> unit io" where
  "await_writeFile w path content =
     call (WriteFile (resolve w path) content)
       (case writeFile w (resolve w path) content of None \<Rightarrow> Inr () | Some e \<Rightarrow> Inl e)"

definition dump_spec :: "world \<Rightarrow> Argv \<Rightarrow> SpecResponse \<Rightarrow> unit io" where
  "dump_spec w argv sp =
     (case specOutFile argv of
        None \<Rightarrow> return_io ()
      | Some path \<Rightarrow> if path \<noteq> [] then await_writeFile w path (JSON_stringify w sp) else return_io ())"

text \<open>Line 131, and the read of \<^verbatim>\<open>spec.components.schemas\<close> in line 137, which throws
  a \<^verbatim>\<open>TypeError\<close> on a document without it.\<close>

definition baseSource :: "world \<Rightarrow> SpecResponse \<Rightarrow> string io" where
  "baseSource w sp = call (OpenApiTs sp) (openApiTs w sp)"

definition read_schemas :: "SpecResponse \<Rightarrow> schemas io" where
  "read_schemas sp =
     (case components_schemas sp of None \<Rightarrow> throw TypeError | Some obj \<Rightarrow> return_io obj)"

text \<open>Everything after the gate (lines 121 to 188), for either assembler.\<close>

definition after_gate ::
  "(Argv \<Rightarrow> string \<Rightarrow> schemas \<Rightarrow> string) \<Rightarrow> world \<Rightarrow> Argv \<Rightarrow> SpecResponse \<Rightarrow> unit io" where
  "after_gate assemble w argv sp =
     io_bind (dump_spec w argv sp) (\<lambda>_.
     io_bind (baseSource w sp) (\<lambda>base.
     io_bind (read_schemas sp) (\<lambda>obj.
     await_writeFile w (outFile argv) (assemble argv base obj))))"

text \<open>The whole script. The two scripts are the same statements up to the converter
  call and differ in the partitioner and the assembler only.\<close>

definition run ::
  "(Argv \<Rightarrow> string \<Rightarrow> schemas \<Rightarrow> string) \<Rightarrow> world \<Rightarrow> Argv \<Rightarrow> unit io" where
  "run assemble w argv =
     io_bind (token w argv) (\<lambda>tok.
     io_bind (spec w argv tok) (\<lambda>sp.
     io_bind (assertSpecHasNoErrors sp) (\<lambda>_.
     after_gate assemble w argv sp)))"

definition cli_ts :: "world \<Rightarrow> Argv \<Rightarrow> unit io" where
  "cli_ts = run source_ts"

definition cli_js :: "world \<Rightarrow> Argv \<Rightarrow> unit io" where
  "cli_js = run source_js"


section \<open>Reading the output\<close>




text \<open>
  The declarations the generator writes itself, as section 4.4 of the specification
  describes them: an alias for a type literal with one property line per entry, an
  alias for the intersection of two named types, and (cli.ts only) an alias per schema
  entry, whose right-hand side points into the base text. \<open>print_declaration\<close> prints
  one declaration and \<open>lines_text\<close> puts texts on lines of their own.
\<close>

datatype type_expr =
    TypeLiteral "string list"
  | TypeReference string
  | Intersection type_expr type_expr
  | SchemaEntry string




text \<open>
  A name stands for a type when exactly one declaration carries it: TypeScript rejects a
  type alias that is declared twice. The properties of a type expression are read off
  the declarations: those of a literal are its lines, a reference has the properties of
  the literal declared under its name, an intersection has the properties of both sides.
  Where the declarations do not settle them (a name declared twice or not at all, an
  entry of the base text) the result is \<open>None\<close>.
\<close>

definition declared :: "(string \<times> type_expr) list \<Rightarrow> string \<Rightarrow> type_expr option" where
  "declared decls name =
     (case filter (\<lambda>d. fst d = name) decls of [d] \<Rightarrow> Some (snd d) | _ \<Rightarrow> None)"


definition all_collections :: "Argv \<Rightarrow> type_expr" where
  "all_collections argv =
     Intersection (TypeReference (directusTypeName argv)) (TypeReference (appTypeName argv))"

definition aggregates ::
  "Argv \<Rightarrow> string list \<Rightarrow> string list \<Rightarrow> (string \<times> type_expr) list" where
  "aggregates argv appProps directusProps =
     [(appTypeName argv, TypeLiteral appProps),
      (directusTypeName argv, TypeLiteral directusProps),
      (allTypeName argv, all_collections argv)]"

definition aliases_ts :: "schemas \<Rightarrow> (string \<times> type_expr) list" where
  "aliases_ts obj =
     map (\<lambda>k. (formatedSchemaKey k, SchemaEntry k))
       (filter (\<lambda>k. k \<noteq> ''x-metadata'') (Object_keys obj))"

definition declarations_ts :: "Argv \<Rightarrow> schemas \<Rightarrow> (string \<times> type_expr) list" where
  "declarations_ts argv obj =
     aggregates argv (exportAppCollectionsProperties (partition_ts obj))
       (exportDirectusCollectionsProperties (partition_ts obj))
     @ aliases_ts obj"



section \<open>Example inputs\<close>

text \<open>A command line with the default type names (cli.ts, lines 34 to 49) and a static
  token; a small schema map; and an outside world that answers the spec request with a
  given document, converts every document to the same base text, and never fails.\<close>

definition example_argv :: Argv where
  "example_argv =
     \<lparr>host = ''https://cms.example'', email = ''admin@cms.example'', password = ''secret'',
      passwordIsStaticToken = True, appTypeName = ''AppCollections'',
      directusTypeName = ''DirectusCollections'', allTypeName = ''Collections'',
      specOutFile = None, outFile = ''directus.d.ts''\<rparr>"

definition example_schemas :: schemas where
  "example_schemas =
     [(''ItemsArticle'', \<lparr>x_collection = ''article''\<rparr>),
      (''Users'', \<lparr>x_collection = ''directus_users''\<rparr>)]"

definition example_world :: "SpecResponse \<Rightarrow> world" where
  "example_world sp =
     \<lparr>fetch_login = (\<lambda>h e p. Inr ''access''),
      fetch_spec = (\<lambda>url auth. Inr sp),
      openApiTs = (\<lambda>d. Inr ''B''),
      JSON_stringify = (\<lambda>d. ''{}''),
      resolve = (\<lambda>path. ''/cwd/'' @ path),
      writeFile = (\<lambda>path content. None)\<rparr>"


section \<open>The loops in closed form\<close>

lemma for_schemaKey_ts_app:
  "exportAppCollectionsProperties (for_schemaKey_ts st ks) =
     exportAppCollectionsProperties st @ map propertyLine (filter isAppCollection ks)"
  by (induction ks arbitrary: st) (simp_all add: loop_body_ts_def push_def Let_def)

lemma for_schemaKey_ts_directus:
  "exportDirectusCollectionsProperties (for_schemaKey_ts st ks) =
     exportDirectusCollectionsProperties st
       @ map propertyLine (filter (\<lambda>k. \<not> isAppCollection k) ks)"
  by (induction ks arbitrary: st) (simp_all add: loop_body_ts_def push_def Let_def)

lemma for_schemaKey_ts_lines:
  "exportAllCollectionsLines (for_schemaKey_ts st ks) =
     exportAllCollectionsLines st @ map exportLine (filter (\<lambda>k. k \<noteq> ''x-metadata'') ks)"
  by (induction ks arbitrary: st) (simp_all add: loop_body_ts_def push_def Let_def)

lemma for_entry_js_user:
  "exportUserCollectionsProperties (for_entry_js st es) =
     exportUserCollectionsProperties st
       @ map (\<lambda>(k, s). line_js k s) (filter (\<lambda>(k, s). isUserCollection k) es)"
  by (induction es arbitrary: st) (auto simp: loop_body_js_def push_def)

lemma for_entry_js_directus:
  "exportDirectusCollectionsProperties_js (for_entry_js st es) =
     exportDirectusCollectionsProperties_js st
       @ map (\<lambda>(k, s). line_js k s) (filter (\<lambda>(k, s). \<not> isUserCollection k) es)"
  by (induction es arbitrary: st) (auto simp: loop_body_js_def push_def)

lemma startsWith_Items_take: "startsWith k ''Items'' \<longleftrightarrow> take 5 k = ''Items''"
  by (simp add: startsWith_def eval_nat_numeral)

lemma startsWith_Items_length: "startsWith k ''Items'' \<Longrightarrow> 5 \<le> length k"
proof -
  assume "startsWith k ''Items''"
  then have "take 5 k = ''Items''" by (simp only: startsWith_Items_take)
  then have "length (take 5 k) = length ''Items''" by (rule arg_cong)
  then show ?thesis by simp
qed

lemma startsWith_Items_decompose: "startsWith k ''Items'' \<longleftrightarrow> (\<exists>r. k = ''Items'' @ r)"
proof
  assume "startsWith k ''Items''"
  then have "take 5 k = ''Items''" by (simp only: startsWith_Items_take)
  then have "take 5 k @ drop 5 k = ''Items'' @ drop 5 k" by (rule arg_cong)
  then have "k = ''Items'' @ drop 5 k" by (simp only: append_take_drop_id)
  then show "\<exists>r. k = ''Items'' @ r" ..
next
  assume "\<exists>r. k = ''Items'' @ r"
  then show "startsWith k ''Items''" by (auto simp: startsWith_def)
qed

lemma same_suffix_key:
  assumes "a @ m @ k @ e = a' @ m @ k' @ e" and "length k = length k'"
  shows "k = k'"
proof -
  from assms(1) have "(a @ m) @ (k @ e) = (a' @ m) @ (k' @ e)" by simp
  moreover from assms(2) have "length (k @ e) = length (k' @ e)" by simp
  ultimately have "k @ e = k' @ e" by (metis append_eq_append_conv)
  then show ?thesis by simp
qed

lemma formatedSchemaKey_length:
  "length (formatedSchemaKey k) = (if startsWith k ''Items'' then length k - 2 else length k + 8)"
  using startsWith_Items_length [of k] by (auto simp: formatedSchemaKey_def slice_def)

lemma formatedSchemaKey_head:
  "hd (formatedSchemaKey k) = (if startsWith k ''Items'' then CHR ''A'' else CHR ''D'')"
  by (simp add: formatedSchemaKey_def)

lemma formatedSchemaKey_same_class:
  assumes "formatedSchemaKey k @ x = formatedSchemaKey k' @ y"
  shows "startsWith k ''Items'' \<longleftrightarrow> startsWith k' ''Items''"
proof -
  have ne: "formatedSchemaKey k \<noteq> []" "formatedSchemaKey k' \<noteq> []"
    by (simp_all add: formatedSchemaKey_def)
  from assms have "hd (formatedSchemaKey k @ x) = hd (formatedSchemaKey k' @ y)" by simp
  with ne have "hd (formatedSchemaKey k) = hd (formatedSchemaKey k')" by simp
  then show ?thesis by (simp add: formatedSchemaKey_head split: if_splits)
qed

lemma line_template_inj:
  assumes "p @ formatedSchemaKey k @ m @ k @ e = p @ formatedSchemaKey k' @ m @ k' @ e"
  shows "k = k'"
proof -
  from assms have eq: "formatedSchemaKey k @ m @ k @ e = formatedSchemaKey k' @ m @ k' @ e"
    by simp
  then have cls: "startsWith k ''Items'' \<longleftrightarrow> startsWith k' ''Items''"
    by (rule formatedSchemaKey_same_class)
  from eq have "length (formatedSchemaKey k @ m @ k @ e)
      = length (formatedSchemaKey k' @ m @ k' @ e)" by (rule arg_cong)
  then have "length (formatedSchemaKey k) + length k = length (formatedSchemaKey k') + length k'"
    by simp
  with cls have "length k = length k'"
    using startsWith_Items_length [of k] startsWith_Items_length [of k']
    by (simp add: formatedSchemaKey_length split: if_splits)
  with eq show ?thesis by (rule same_suffix_key)
qed

lemma propertyLine_inj: "propertyLine k = propertyLine k' \<Longrightarrow> k = k'"
  unfolding propertyLine_def by (rule line_template_inj)

lemma exportLine_inj: "exportLine k = exportLine k' \<Longrightarrow> k = k'"
  unfolding exportLine_def by (rule line_template_inj)

lemma partition_ts_app:
  "exportAppCollectionsProperties (partition_ts obj) =
     map propertyLine (filter isAppCollection (Object_keys obj))"
  by (simp add: partition_ts_def for_schemaKey_ts_app collections_ts_init_def)

lemma partition_ts_directus:
  "exportDirectusCollectionsProperties (partition_ts obj) =
     map propertyLine (filter (\<lambda>k. \<not> isAppCollection k) (Object_keys obj))"
  by (simp add: partition_ts_def for_schemaKey_ts_directus collections_ts_init_def)

lemma partition_ts_lines:
  "exportAllCollectionsLines (partition_ts obj) =
     map exportLine (filter (\<lambda>k. k \<noteq> ''x-metadata'') (Object_keys obj))"
  by (simp add: partition_ts_def for_schemaKey_ts_lines collections_ts_init_def)

lemma partition_js_user:
  "exportUserCollectionsProperties (partition_js obj) =
     map (\<lambda>(k, s). line_js k s) (filter (\<lambda>(k, s). isUserCollection k) obj)"
  by (simp add: partition_js_def for_entry_js_user collections_js_init_def Object_entries_def)

lemma partition_js_directus:
  "exportDirectusCollectionsProperties_js (partition_js obj) =
     map (\<lambda>(k, s). line_js k s) (filter (\<lambda>(k, s). \<not> isUserCollection k) obj)"
  by (simp add: partition_js_def for_entry_js_directus collections_js_init_def Object_entries_def)

section \<open>Classification of the entries\<close>

lemma isAppCollection_iff: "isAppCollection k \<longleftrightarrow> startsWith k ''Items''"
  by (simp add: isAppCollection_def)

lemma startsWith_Items_append: "startsWith (''Items'' @ r) ''Items''"
  by (simp add: startsWith_def)

lemma formatedSchemaKey_Items: "formatedSchemaKey (''Items'' @ r) = ''App'' @ r"
  by (simp add: formatedSchemaKey_def startsWith_def slice_def)

lemma directus_lines_not_app:
  assumes "isAppCollection k"
  shows "propertyLine k \<notin> set (exportDirectusCollectionsProperties (partition_ts obj))"
proof
  assume "propertyLine k \<in> set (exportDirectusCollectionsProperties (partition_ts obj))"
  then obtain k' where "\<not> isAppCollection k'" and "propertyLine k = propertyLine k'"
    by (auto simp: partition_ts_directus)
  with assms show False by (auto dest: propertyLine_inj)
qed

lemma app_lines_not_directus:
  assumes "\<not> isAppCollection k"
  shows "propertyLine k \<notin> set (exportAppCollectionsProperties (partition_ts obj))"
proof
  assume "propertyLine k \<in> set (exportAppCollectionsProperties (partition_ts obj))"
  then obtain k' where "isAppCollection k'" and "propertyLine k = propertyLine k'"
    by (auto simp: partition_ts_app)
  with assms show False by (auto dest: propertyLine_inj)
qed

text \<open>
  Claim C1. An entry whose key begins with \<^verbatim>\<open>Items\<close> has its property line in the app
  list (and, in cli.ts, not in the directus list). In cli.ts the property is named by
  the key with \<^verbatim>\<open>App\<close> in place of the leading \<^verbatim>\<open>Items\<close>; in cli.js it is named by
  the entry's \<^verbatim>\<open>x-collection\<close> annotation as it stands.
\<close>

theorem items_keys_are_app_collections:
  assumes "(''Items'' @ r, sch) \<in> set obj"
  shows \<open>propertyLine (''Items'' @ r)
            \<in> set (exportAppCollectionsProperties (partition_ts obj))
       \<and> propertyLine (''Items'' @ r)
            \<notin> set (exportDirectusCollectionsProperties (partition_ts obj))
       \<and> propertyLine (''Items'' @ r)
            = ''  "App'' @ r @ ''": components["schemas"]["Items'' @ r @ ''"];''
       \<and> line_js (''Items'' @ r) sch
            \<in> set (exportUserCollectionsProperties (partition_js obj))
       \<and> line_js (''Items'' @ r) sch
            = ''  '' @ x_collection sch @ '': components["schemas"]["Items'' @ r @ ''"];''\<close>
proof -
  let ?k = "''Items'' @ r"
  have app: "isAppCollection ?k"
    by (simp only: isAppCollection_iff startsWith_Items_append)
  from assms have key: "?k \<in> set (Object_keys obj)"
    by (force simp: Object_keys_def)
  with app have "propertyLine ?k \<in> set (exportAppCollectionsProperties (partition_ts obj))"
    by (simp add: partition_ts_app)
  moreover from app
  have "propertyLine ?k \<notin> set (exportDirectusCollectionsProperties (partition_ts obj))"
    by (rule directus_lines_not_app)
  moreover have \<open>propertyLine ?k
      = ''  "App'' @ r @ ''": components["schemas"]["Items'' @ r @ ''"];''\<close>
    unfolding propertyLine_def formatedSchemaKey_Items by simp
  moreover from assms app
  have "line_js ?k sch \<in> set (exportUserCollectionsProperties (partition_js obj))"
    by (force simp: partition_js_user isUserCollection_def isAppCollection_iff)
  moreover have \<open>line_js ?k sch
      = ''  '' @ x_collection sch @ '': components["schemas"]["Items'' @ r @ ''"];''\<close>
    by (simp add: line_js_def)
  ultimately show ?thesis by blast
qed

theorem items_keys_are_app_collections_witness:
  \<open>''  "AppArticle": components["schemas"]["ItemsArticle"];''
      \<in> set (exportAppCollectionsProperties (partition_ts
            [(''ItemsArticle'', \<lparr>x_collection = ''article''\<rparr>),
             (''Users'', \<lparr>x_collection = ''directus_users''\<rparr>)]))
   \<and> ''  article: components["schemas"]["ItemsArticle"];''
      \<in> set (exportUserCollectionsProperties (partition_js
            [(''ItemsArticle'', \<lparr>x_collection = ''article''\<rparr>),
             (''Users'', \<lparr>x_collection = ''directus_users''\<rparr>)]))\<close>
proof -
  have mem: "(''Items'' @ ''Article'', \<lparr>x_collection = ''article''\<rparr>)
      \<in> set [(''ItemsArticle'', \<lparr>x_collection = ''article''\<rparr>),
             (''Users'', \<lparr>x_collection = ''directus_users''\<rparr>)]"
    by simp
  from items_keys_are_app_collections [OF mem] show ?thesis
    by (elim conjE) simp
qed

lemma formatedSchemaKey_other:
  "\<not> startsWith k ''Items'' \<Longrightarrow> formatedSchemaKey k = ''Directus'' @ k"
  by (simp add: formatedSchemaKey_def)

text \<open>
  Claim C2. An entry whose key does not begin with \<^verbatim>\<open>Items\<close> has its property line in
  the directus list (and, in cli.ts, not in the app list); in cli.ts the property is
  named by the key with \<^verbatim>\<open>Directus\<close> put in front.
\<close>

theorem other_keys_are_directus_collections:
  assumes "(schemaKey, sch) \<in> set obj" and "\<not> startsWith schemaKey ''Items''"
  shows \<open>propertyLine schemaKey
            \<in> set (exportDirectusCollectionsProperties (partition_ts obj))
       \<and> propertyLine schemaKey
            \<notin> set (exportAppCollectionsProperties (partition_ts obj))
       \<and> propertyLine schemaKey
            = ''  "Directus'' @ schemaKey @ ''": components["schemas"]["'' @ schemaKey @ ''"];''
       \<and> line_js schemaKey sch
            \<in> set (exportDirectusCollectionsProperties_js (partition_js obj))\<close>
proof -
  from assms(2) have other: "\<not> isAppCollection schemaKey"
    by (simp only: isAppCollection_iff not_False_eq_True)
  from assms(1) have key: "schemaKey \<in> set (Object_keys obj)"
    by (force simp: Object_keys_def)
  with other
  have "propertyLine schemaKey \<in> set (exportDirectusCollectionsProperties (partition_ts obj))"
    by (simp add: partition_ts_directus)
  moreover from other
  have "propertyLine schemaKey \<notin> set (exportAppCollectionsProperties (partition_ts obj))"
    by (rule app_lines_not_directus)
  moreover from assms(2) have \<open>propertyLine schemaKey
      = ''  "Directus'' @ schemaKey @ ''": components["schemas"]["'' @ schemaKey @ ''"];''\<close>
    unfolding propertyLine_def by (simp add: formatedSchemaKey_other)
  moreover from assms
  have "line_js schemaKey sch \<in> set (exportDirectusCollectionsProperties_js (partition_js obj))"
    by (force simp: partition_js_directus isUserCollection_def)
  ultimately show ?thesis by blast
qed

theorem other_keys_are_directus_collections_witness:
  \<open>''  "DirectusUsers": components["schemas"]["Users"];''
      \<in> set (exportDirectusCollectionsProperties (partition_ts
            [(''ItemsArticle'', \<lparr>x_collection = ''article''\<rparr>),
             (''Users'', \<lparr>x_collection = ''directus_users''\<rparr>)]))
   \<and> ''  directus_users: components["schemas"]["Users"];''
      \<in> set (exportDirectusCollectionsProperties_js (partition_js
            [(''ItemsArticle'', \<lparr>x_collection = ''article''\<rparr>),
             (''Users'', \<lparr>x_collection = ''directus_users''\<rparr>)]))\<close>
proof -
  have mem: "(''Users'', \<lparr>x_collection = ''directus_users''\<rparr>)
      \<in> set [(''ItemsArticle'', \<lparr>x_collection = ''article''\<rparr>),
             (''Users'', \<lparr>x_collection = ''directus_users''\<rparr>)]"
    by simp
  have other: "\<not> startsWith ''Users'' ''Items''"
    by (simp add: startsWith_def)
  from other_keys_are_directus_collections [OF mem other] show ?thesis
    by (elim conjE) (simp add: line_js_def)
qed


section \<open>Order of the property lines\<close>

text \<open>
  Claim C6. Each list holds the lines of its keys in the order in which the schema map
  enumerates them: it is the enumeration with the keys of the other category left out,
  and nothing is sorted. With the keys \<^verbatim>\<open>Users\<close> and \<^verbatim>\<open>Activity\<close> enumerated in this
  order, the line of \<^verbatim>\<open>Users\<close> comes first.
\<close>

theorem property_lines_follow_key_order:
  "exportAppCollectionsProperties (partition_ts obj)
     = map propertyLine (filter (\<lambda>k. startsWith k ''Items'') (Object_keys obj))
   \<and> exportDirectusCollectionsProperties (partition_ts obj)
     = map propertyLine (filter (\<lambda>k. \<not> startsWith k ''Items'') (Object_keys obj))
   \<and> exportUserCollectionsProperties (partition_js obj)
     = map (\<lambda>(k, s). line_js k s)
         (filter (\<lambda>(k, s). startsWith k ''Items'') (Object_entries obj))
   \<and> exportDirectusCollectionsProperties_js (partition_js obj)
     = map (\<lambda>(k, s). line_js k s)
         (filter (\<lambda>(k, s). \<not> startsWith k ''Items'') (Object_entries obj))
   \<and> exportDirectusCollectionsProperties (partition_ts [(''Users'', s), (''Activity'', s')])
     = [propertyLine ''Users'', propertyLine ''Activity'']"
proof -
  have A: "isAppCollection = (\<lambda>k. startsWith k ''Items'')"
    by (rule ext) (rule isAppCollection_iff)
  have U: "isUserCollection = (\<lambda>k. startsWith k ''Items'')"
    by (rule ext) (simp add: isUserCollection_def)
  have "exportAppCollectionsProperties (partition_ts obj)
      = map propertyLine (filter (\<lambda>k. startsWith k ''Items'') (Object_keys obj))"
    by (simp only: partition_ts_app A)
  moreover have "exportDirectusCollectionsProperties (partition_ts obj)
      = map propertyLine (filter (\<lambda>k. \<not> startsWith k ''Items'') (Object_keys obj))"
    by (simp only: partition_ts_directus A)
  moreover have "exportUserCollectionsProperties (partition_js obj)
      = map (\<lambda>(k, s). line_js k s)
          (filter (\<lambda>(k, s). startsWith k ''Items'') (Object_entries obj))"
    by (simp only: partition_js_user U Object_entries_def)
  moreover have "exportDirectusCollectionsProperties_js (partition_js obj)
      = map (\<lambda>(k, s). line_js k s)
          (filter (\<lambda>(k, s). \<not> startsWith k ''Items'') (Object_entries obj))"
    by (simp only: partition_js_directus U Object_entries_def)
  moreover have "exportDirectusCollectionsProperties
        (partition_ts [(''Users'', s), (''Activity'', s')])
      = [propertyLine ''Users'', propertyLine ''Activity'']"
    by (simp add: partition_ts_directus Object_keys_def isAppCollection_def startsWith_def)
  ultimately show ?thesis by (intro conjI)
qed

section \<open>Type aliases of cli.ts\<close>

text \<open>
  Claim C7. In cli.ts the alias lines are those of the keys other than \<^verbatim>\<open>x-metadata\<close>,
  in enumeration order. The alias of a key is named by its rewritten name and refers to
  the schema entry under the original key. Every other key has its alias in the list;
  the alias of \<^verbatim>\<open>x-metadata\<close> is not in it.
\<close>

theorem aliases_for_all_but_metadata:
  \<open>exportAllCollectionsLines (partition_ts obj)
      = map exportLine (filter (\<lambda>k. k \<noteq> ''x-metadata'') (Object_keys obj))
   \<and> exportLine k
      = ''export type '' @ formatedSchemaKey k @ '' = components["schemas"]["'' @ k @ ''"];''
   \<and> (k \<in> set (Object_keys obj) \<and> k \<noteq> ''x-metadata''
        \<longrightarrow> exportLine k \<in> set (exportAllCollectionsLines (partition_ts obj)))
   \<and> exportLine ''x-metadata'' \<notin> set (exportAllCollectionsLines (partition_ts obj))\<close>
proof -
  have "exportLine ''x-metadata'' \<notin> set (exportAllCollectionsLines (partition_ts obj))"
  proof
    assume "exportLine ''x-metadata'' \<in> set (exportAllCollectionsLines (partition_ts obj))"
    then obtain k' where "k' \<noteq> ''x-metadata''" and "exportLine ''x-metadata'' = exportLine k'"
      by (auto simp: partition_ts_lines)
    then show False by (auto dest: exportLine_inj)
  qed
  moreover have "k \<in> set (Object_keys obj) \<and> k \<noteq> ''x-metadata''
      \<longrightarrow> exportLine k \<in> set (exportAllCollectionsLines (partition_ts obj))"
    by (simp add: partition_ts_lines)
  ultimately show ?thesis
    by (simp only: partition_ts_lines exportLine_def simp_thms)
qed

theorem aliases_for_all_but_metadata_witness:
  \<open>exportAllCollectionsLines (partition_ts
       [(''ItemsArticle'', \<lparr>x_collection = ''article''\<rparr>),
        (''x-metadata'', \<lparr>x_collection = ''''\<rparr>),
        (''Users'', \<lparr>x_collection = ''directus_users''\<rparr>)])
     = [''export type AppArticle = components["schemas"]["ItemsArticle"];'',
        ''export type DirectusUsers = components["schemas"]["Users"];'']
   \<and> ''export type DirectusUsers = components["schemas"]["Users"];''
       \<in> set (exportAllCollectionsLines (partition_ts
       [(''ItemsArticle'', \<lparr>x_collection = ''article''\<rparr>),
        (''x-metadata'', \<lparr>x_collection = ''''\<rparr>),
        (''Users'', \<lparr>x_collection = ''directus_users''\<rparr>)]))\<close>
proof -
  let ?obj = "[(''ItemsArticle'', \<lparr>x_collection = ''article''\<rparr>),
        (''x-metadata'', \<lparr>x_collection = ''''\<rparr>),
        (''Users'', \<lparr>x_collection = ''directus_users''\<rparr>)]"
  have key: "''Users'' \<in> set (Object_keys ?obj) \<and> ''Users'' \<noteq> ''x-metadata''"
    by (simp add: Object_keys_def)
  from aliases_for_all_but_metadata [of ?obj "''Users''"]
  have 1: "exportAllCollectionsLines (partition_ts ?obj)
      = map exportLine (filter (\<lambda>k. k \<noteq> ''x-metadata'') (Object_keys ?obj))"
   and 2: "''Users'' \<in> set (Object_keys ?obj) \<and> ''Users'' \<noteq> ''x-metadata''
        \<longrightarrow> exportLine ''Users'' \<in> set (exportAllCollectionsLines (partition_ts ?obj))"
    by blast+
  from 2 key have 3: "exportLine ''Users'' \<in> set (exportAllCollectionsLines (partition_ts ?obj))"
    by (rule mp)
  have 4: \<open>exportLine ''Users'' = ''export type DirectusUsers = components["schemas"]["Users"];''\<close>
    by (simp add: exportLine_def formatedSchemaKey_def startsWith_def)
  have 5: \<open>map exportLine (filter (\<lambda>k. k \<noteq> ''x-metadata'') (Object_keys ?obj))
     = [''export type AppArticle = components["schemas"]["ItemsArticle"];'',
        ''export type DirectusUsers = components["schemas"]["Users"];'']\<close>
    by (simp add: Object_keys_def exportLine_def formatedSchemaKey_def startsWith_def slice_def)
  from 1 3 show ?thesis unfolding 4 5 by (intro conjI)
qed


section \<open>The partition is total and disjoint\<close>

lemma mset_map_filter_split:
  "mset (map f (filter P xs)) + mset (map f (filter (\<lambda>x. \<not> P x) xs)) = mset (map f xs)"
  by (induction xs) simp_all

lemma propertyLine_metadata:
  \<open>propertyLine ''x-metadata'' = ''  "Directusx-metadata": components["schemas"]["x-metadata"];''\<close>
  by (simp add: propertyLine_def formatedSchemaKey_def startsWith_def)

lemma metadata_not_app: "\<not> isAppCollection ''x-metadata''"
  by (simp add: isAppCollection_def startsWith_def)

text \<open>
  Claim C9. Every key gives one line to one list. The two lists together are as long as
  the key enumeration and hold, as a multiset, exactly the lines of all keys; in cli.ts
  the line of each key is in exactly one of the two lists, and with distinct keys no
  line occurs twice. The key \<^verbatim>\<open>x-metadata\<close>, which gets no alias, is a directus entry
  with the property \<^verbatim>\<open>Directusx-metadata\<close>. The counts hold for cli.js as well.
\<close>

theorem partition_total_and_disjoint:
  \<open>length (exportAppCollectionsProperties (partition_ts obj))
       + length (exportDirectusCollectionsProperties (partition_ts obj))
     = length (Object_keys obj)
   \<and> mset (exportAppCollectionsProperties (partition_ts obj))
       + mset (exportDirectusCollectionsProperties (partition_ts obj))
     = mset (map propertyLine (Object_keys obj))
   \<and> (\<forall>k \<in> set (Object_keys obj).
         (propertyLine k \<in> set (exportAppCollectionsProperties (partition_ts obj)))
         \<noteq> (propertyLine k \<in> set (exportDirectusCollectionsProperties (partition_ts obj))))
   \<and> (distinct (Object_keys obj) \<longrightarrow>
         distinct (exportAppCollectionsProperties (partition_ts obj)
                   @ exportDirectusCollectionsProperties (partition_ts obj)))
   \<and> (''x-metadata'' \<in> set (Object_keys obj) \<longrightarrow>
         ''  "Directusx-metadata": components["schemas"]["x-metadata"];''
           \<in> set (exportDirectusCollectionsProperties (partition_ts obj))
       \<and> ''  "Directusx-metadata": components["schemas"]["x-metadata"];''
           \<notin> set (exportAppCollectionsProperties (partition_ts obj)))
   \<and> length (exportUserCollectionsProperties (partition_js obj))
       + length (exportDirectusCollectionsProperties_js (partition_js obj))
     = length (Object_entries obj)
   \<and> mset (exportUserCollectionsProperties (partition_js obj))
       + mset (exportDirectusCollectionsProperties_js (partition_js obj))
     = mset (map (\<lambda>(k, s). line_js k s) (Object_entries obj))\<close>
proof -
  let ?app = "exportAppCollectionsProperties (partition_ts obj)"
  let ?dir = "exportDirectusCollectionsProperties (partition_ts obj)"
  let ?keys = "Object_keys obj"
  have len: "length ?app + length ?dir = length ?keys"
    by (simp add: partition_ts_app partition_ts_directus sum_length_filter_compl)
  have ms: "mset ?app + mset ?dir = mset (map propertyLine ?keys)"
    unfolding partition_ts_app partition_ts_directus by (rule mset_map_filter_split)
  have one: "\<forall>k \<in> set ?keys. (propertyLine k \<in> set ?app) \<noteq> (propertyLine k \<in> set ?dir)"
  proof
    fix k assume k: "k \<in> set ?keys"
    show "(propertyLine k \<in> set ?app) \<noteq> (propertyLine k \<in> set ?dir)"
    proof (cases "isAppCollection k")
      case True
      with k have "propertyLine k \<in> set ?app" by (simp add: partition_ts_app)
      moreover from True have "propertyLine k \<notin> set ?dir" by (rule directus_lines_not_app)
      ultimately show ?thesis by simp
    next
      case False
      with k have "propertyLine k \<in> set ?dir" by (simp add: partition_ts_directus)
      moreover from False have "propertyLine k \<notin> set ?app" by (rule app_lines_not_directus)
      ultimately show ?thesis by simp
    qed
  qed
  have dist: "distinct ?keys \<longrightarrow> distinct (?app @ ?dir)"
  proof
    assume "distinct ?keys"
    moreover have "inj_on propertyLine (set ?keys)"
      by (rule inj_onI) (rule propertyLine_inj)
    ultimately have "distinct (map propertyLine ?keys)" by (simp add: distinct_map)
    moreover from ms have "mset (?app @ ?dir) = mset (map propertyLine ?keys)" by simp
    ultimately show "distinct (?app @ ?dir)" by (metis mset_eq_imp_distinct_iff)
  qed
  have meta: \<open>''x-metadata'' \<in> set ?keys \<longrightarrow>
         ''  "Directusx-metadata": components["schemas"]["x-metadata"];'' \<in> set ?dir
       \<and> ''  "Directusx-metadata": components["schemas"]["x-metadata"];'' \<notin> set ?app\<close>
  proof
    assume k: "''x-metadata'' \<in> set ?keys"
    with metadata_not_app have "propertyLine ''x-metadata'' \<in> set ?dir"
      by (simp add: partition_ts_directus)
    moreover from metadata_not_app have "propertyLine ''x-metadata'' \<notin> set ?app"
      by (rule app_lines_not_directus)
    ultimately show
      \<open>''  "Directusx-metadata": components["schemas"]["x-metadata"];'' \<in> set ?dir
       \<and> ''  "Directusx-metadata": components["schemas"]["x-metadata"];'' \<notin> set ?app\<close>
      by (simp only: propertyLine_metadata simp_thms)
  qed
  have lenjs: "length (exportUserCollectionsProperties (partition_js obj))
       + length (exportDirectusCollectionsProperties_js (partition_js obj))
     = length (Object_entries obj)"
    by (simp add: partition_js_user partition_js_directus Object_entries_def
        sum_length_filter_compl split_def)
  have msjs: "mset (exportUserCollectionsProperties (partition_js obj))
       + mset (exportDirectusCollectionsProperties_js (partition_js obj))
     = mset (map (\<lambda>(k, s). line_js k s) (Object_entries obj))"
    using mset_map_filter_split [of "\<lambda>(k, s). line_js k s" "\<lambda>(k, s). isUserCollection k" obj]
    by (simp add: partition_js_user partition_js_directus Object_entries_def split_def)
  from len ms one dist meta lenjs msjs show ?thesis by (intro conjI)
qed

theorem partition_total_and_disjoint_witness:
  \<open>''  "Directusx-metadata": components["schemas"]["x-metadata"];''
      \<in> set (exportDirectusCollectionsProperties (partition_ts
            [(''ItemsArticle'', \<lparr>x_collection = ''article''\<rparr>),
             (''x-metadata'', \<lparr>x_collection = ''''\<rparr>)]))
   \<and> ''  "Directusx-metadata": components["schemas"]["x-metadata"];''
      \<notin> set (exportAppCollectionsProperties (partition_ts
            [(''ItemsArticle'', \<lparr>x_collection = ''article''\<rparr>),
             (''x-metadata'', \<lparr>x_collection = ''''\<rparr>)]))
   \<and> distinct (exportAppCollectionsProperties (partition_ts
            [(''ItemsArticle'', \<lparr>x_collection = ''article''\<rparr>),
             (''x-metadata'', \<lparr>x_collection = ''''\<rparr>)])
        @ exportDirectusCollectionsProperties (partition_ts
            [(''ItemsArticle'', \<lparr>x_collection = ''article''\<rparr>),
             (''x-metadata'', \<lparr>x_collection = ''''\<rparr>)]))
   \<and> (propertyLine ''ItemsArticle'' \<in> set (exportAppCollectionsProperties (partition_ts
            [(''ItemsArticle'', \<lparr>x_collection = ''article''\<rparr>),
             (''x-metadata'', \<lparr>x_collection = ''''\<rparr>)])))
     \<noteq> (propertyLine ''ItemsArticle'' \<in> set (exportDirectusCollectionsProperties (partition_ts
            [(''ItemsArticle'', \<lparr>x_collection = ''article''\<rparr>),
             (''x-metadata'', \<lparr>x_collection = ''''\<rparr>)])))\<close>
proof -
  let ?obj = "[(''ItemsArticle'', \<lparr>x_collection = ''article''\<rparr>),
               (''x-metadata'', \<lparr>x_collection = ''''\<rparr>)]"
  have k1: "''x-metadata'' \<in> set (Object_keys ?obj)"
    and k2: "''ItemsArticle'' \<in> set (Object_keys ?obj)"
    and d: "distinct (Object_keys ?obj)"
    by (simp_all add: Object_keys_def)
  from partition_total_and_disjoint [of ?obj] k1 k2 d show ?thesis
    by blast
qed

section \<open>The run\<close>

lemma io_bind_Inl: "io_bind (evs, Inl e) f = (evs, Inl e)"
  by (simp add: io_bind_def)

lemma io_bind_Inr: "io_bind (evs, Inr x) f = (evs @ fst (f x), snd (f x))"
  by (simp add: io_bind_def split: prod.splits)

lemma token_events:
  "fst (token w argv) = (if passwordIsStaticToken argv then []
     else [FetchLogin (host argv) (email argv) (password argv)])"
  by (simp add: token_def return_io_def call_def)

lemma assertSpecHasNoErrors_cases:
  "assertSpecHasNoErrors sp =
     (case errors sp of
        None \<Rightarrow> ([], Inr ())
      | Some es \<Rightarrow> if es = [] then ([], Inr ())
                   else ([ConsoleError es], Inl (Error ''Could not generate TypeScript definitions'')))"
  by (simp add: assertSpecHasNoErrors_def return_io_def call_def throw_def io_bind_def
      split: option.splits)

lemma run_unfold:
  assumes "token w argv = (evs, Inr tok)"
      and "fetch_spec w (host argv @ ''/server/specs/oas'') (''Bearer '' @ tok) = Inr sp"
  shows "run assemble w argv =
     io_bind (evs @ [FetchSpec (host argv @ ''/server/specs/oas'') (''Bearer '' @ tok)], Inr sp)
       (\<lambda>sp. io_bind (assertSpecHasNoErrors sp) (\<lambda>_. after_gate assemble w argv sp))"
  using assms by (simp add: run_def spec_def call_def io_bind_Inr)

lemma run_errors:
  assumes "token w argv = (evs, Inr tok)"
      and "fetch_spec w (host argv @ ''/server/specs/oas'') (''Bearer '' @ tok) = Inr sp"
      and "errors sp = Some es" and "es \<noteq> []"
  shows "run assemble w argv =
     (evs @ [FetchSpec (host argv @ ''/server/specs/oas'') (''Bearer '' @ tok), ConsoleError es],
      Inl (Error ''Could not generate TypeScript definitions''))"
  using assms(3,4)
  by (simp add: run_unfold [OF assms(1,2)] io_bind_Inr io_bind_Inl assertSpecHasNoErrors_cases)

lemma after_gate_events:
  "\<forall>ev \<in> set (fst (after_gate assemble w argv sp)).
     (\<exists>path content. ev = WriteFile path content) \<or> ev = OpenApiTs sp"
  by (auto simp: after_gate_def dump_spec_def baseSource_def read_schemas_def
      await_writeFile_def call_def io_bind_def return_io_def throw_def
      split: option.splits sum.splits prod.splits if_splits)

lemma run_static_events:
  assumes "passwordIsStaticToken argv"
  shows "\<exists>rest. fst (run assemble w argv) =
           FetchSpec (host argv @ ''/server/specs/oas'') (''Bearer '' @ password argv) # rest
         \<and> (\<forall>ev \<in> set rest. (\<exists>es. ev = ConsoleError es) \<or> (\<exists>path content. ev = WriteFile path content)
               \<or> (\<exists>d. ev = OpenApiTs d))"
proof -
  let ?url = "host argv @ ''/server/specs/oas''" and ?auth = "''Bearer '' @ password argv"
  from assms have t: "token w argv = ([], Inr (password argv))"
    by (simp add: token_def return_io_def)
  show ?thesis
  proof (cases "fetch_spec w ?url ?auth")
    case (Inl e)
    with t have "fst (run assemble w argv) = [FetchSpec ?url ?auth]"
      by (simp add: run_def spec_def call_def io_bind_Inr io_bind_Inl)
    then show ?thesis by simp
  next
    case (Inr sp)
    have "fst (run assemble w argv) = FetchSpec ?url ?auth
        # fst (io_bind (assertSpecHasNoErrors sp) (\<lambda>_. after_gate assemble w argv sp))"
      by (simp add: run_unfold [OF t Inr] io_bind_Inr)
    moreover have "\<forall>ev \<in> set (fst (io_bind (assertSpecHasNoErrors sp)
          (\<lambda>_. after_gate assemble w argv sp))).
        (\<exists>es. ev = ConsoleError es) \<or> (\<exists>path content. ev = WriteFile path content)
          \<or> (\<exists>d. ev = OpenApiTs d)"
      using after_gate_events [of assemble w argv sp]
      by (auto simp: assertSpecHasNoErrors_cases io_bind_Inr io_bind_Inl split: option.splits)
    ultimately show ?thesis by blast
  qed
qed

lemma after_gate_first_event:
  "fst (after_gate assemble w argv sp) \<noteq> []
   \<and> hd (fst (after_gate assemble w argv sp)) =
       (case specOutFile argv of
          None \<Rightarrow> OpenApiTs sp
        | Some path \<Rightarrow> if path \<noteq> [] then WriteFile (resolve w path) (JSON_stringify w sp)
                        else OpenApiTs sp)"
  by (auto simp: after_gate_def dump_spec_def baseSource_def read_schemas_def
      await_writeFile_def call_def io_bind_def return_io_def throw_def
      split: option.splits sum.splits prod.splits if_splits)

lemma after_gate_success:
  assumes "\<forall>path content. writeFile w path content = None"
      and "openApiTs w sp = Inr base" and "components_schemas sp = Some obj"
  shows "snd (after_gate assemble w argv sp) = Inr ()
       \<and> last (fst (after_gate assemble w argv sp))
           = WriteFile (resolve w (outFile argv)) (assemble argv base obj)"
  using assms
  by (auto simp: after_gate_def dump_spec_def baseSource_def read_schemas_def
      await_writeFile_def call_def io_bind_def return_io_def throw_def
      split: option.splits sum.splits prod.splits if_splits)

text \<open>
  Claim C4. When the spec request is answered by a document with a non-empty error
  list, the run prints that list and ends with the error \<^verbatim>\<open>Could not generate
  TypeScript definitions\<close>. Printing is its last call: no file is written, neither
  the spec dump nor the output file, and the converter is not called.
\<close>

theorem errors_stop_the_run:
  assumes "token w argv = (evs, Inr tok)"
      and "fetch_spec w (host argv @ ''/server/specs/oas'') (''Bearer '' @ tok) = Inr sp"
      and "errors sp = Some es" and "es \<noteq> []"
  shows "cli_ts w argv =
           (evs @ [FetchSpec (host argv @ ''/server/specs/oas'') (''Bearer '' @ tok),
                   ConsoleError es],
            Inl (Error ''Could not generate TypeScript definitions''))
       \<and> cli_js w argv =
           (evs @ [FetchSpec (host argv @ ''/server/specs/oas'') (''Bearer '' @ tok),
                   ConsoleError es],
            Inl (Error ''Could not generate TypeScript definitions''))
       \<and> (\<forall>ev \<in> set (fst (cli_ts w argv)).
             \<forall>path content d. ev \<noteq> WriteFile path content \<and> ev \<noteq> OpenApiTs d)
       \<and> last (fst (cli_ts w argv)) = ConsoleError es"
proof -
  note r = run_errors [OF assms]
  from assms(1) have "evs = fst (token w argv)" by simp
  then have evs: "\<forall>ev \<in> set evs. \<forall>path content d. ev \<noteq> WriteFile path content \<and> ev \<noteq> OpenApiTs d"
    by (simp add: token_events)
  from evs show ?thesis
    by (simp add: cli_ts_def cli_js_def r)
qed

theorem errors_stop_the_run_witness:
  "cli_ts (example_world \<lparr>errors = Some [Unknown ''forbidden''], components_schemas = None\<rparr>)
      example_argv =
     ([FetchSpec ''https://cms.example/server/specs/oas'' ''Bearer secret'',
       ConsoleError [Unknown ''forbidden'']],
      Inl (Error ''Could not generate TypeScript definitions''))"
proof -
  let ?sp = "\<lparr>errors = Some [Unknown ''forbidden''], components_schemas = None\<rparr>"
  have t: "token (example_world ?sp) example_argv = ([], Inr ''secret'')"
    by (simp add: token_def example_argv_def return_io_def)
  have f: "fetch_spec (example_world ?sp) (host example_argv @ ''/server/specs/oas'')
      (''Bearer '' @ ''secret'') = Inr ?sp"
    by (simp add: example_world_def)
  have e: "errors ?sp = Some [Unknown ''forbidden'']" by simp
  have n: "[Unknown ''forbidden''] \<noteq> []" by simp
  from errors_stop_the_run [OF t f e n] show ?thesis
    by (simp add: example_argv_def)
qed

text \<open>
  Claim C5. With \<^verbatim>\<open>passwordIsStaticToken\<close> set, the credential is the password as it
  stands and is obtained without a call; the run makes no login request, its first call
  is the spec request, and every spec request carries \<^verbatim>\<open>Bearer\<close> followed by the
  password.
\<close>

theorem static_token_skips_login:
  assumes "passwordIsStaticToken argv"
  shows "token w argv = ([], Inr (password argv))
       \<and> (\<forall>ev \<in> set (fst (cli_ts w argv)). \<forall>h e p. ev \<noteq> FetchLogin h e p)
       \<and> fst (cli_ts w argv) \<noteq> []
       \<and> hd (fst (cli_ts w argv))
           = FetchSpec (host argv @ ''/server/specs/oas'') (''Bearer '' @ password argv)
       \<and> (\<forall>url auth. FetchSpec url auth \<in> set (fst (cli_ts w argv))
             \<longrightarrow> auth = ''Bearer '' @ password argv)"
proof -
  from assms have "token w argv = ([], Inr (password argv))"
    by (simp add: token_def return_io_def)
  moreover from run_static_events [OF assms, of source_ts w]
  obtain rest where
    "fst (cli_ts w argv) =
       FetchSpec (host argv @ ''/server/specs/oas'') (''Bearer '' @ password argv) # rest"
    and "\<forall>ev \<in> set rest. (\<exists>es. ev = ConsoleError es)
       \<or> (\<exists>path content. ev = WriteFile path content) \<or> (\<exists>d. ev = OpenApiTs d)"
    unfolding cli_ts_def by blast
  ultimately show ?thesis by auto
qed

theorem static_token_skips_login_witness:
  "token (example_world \<lparr>errors = None, components_schemas = Some example_schemas\<rparr>)
       example_argv = ([], Inr ''secret'')
   \<and> hd (fst (cli_ts
        (example_world \<lparr>errors = None, components_schemas = Some example_schemas\<rparr>)
        example_argv))
     = FetchSpec ''https://cms.example/server/specs/oas'' ''Bearer secret''"
proof -
  have s: "passwordIsStaticToken example_argv" by (simp add: example_argv_def)
  from static_token_skips_login [OF s,
      of "example_world \<lparr>errors = None, components_schemas = Some example_schemas\<rparr>"]
  show ?thesis by (simp add: example_argv_def)
qed

text \<open>
  Claim C10. The gate raises exactly when the \<^verbatim>\<open>errors\<close> property is present with a
  non-empty list. On a document whose \<^verbatim>\<open>errors\<close> property is the empty list it prints
  nothing and raises nothing, and the run goes on with that document: the next call is
  the spec dump of it when a dump file is configured, the conversion of it otherwise;
  and when the converter and the file system do not fail and the document has a schema
  map, the run ends normally with the output file written last.
\<close>

theorem gate_raises_iff_errors_nonempty:
  "((\<exists>e. snd (assertSpecHasNoErrors sp) = Inl e)
      \<longleftrightarrow> (\<exists>es. errors sp = Some es \<and> es \<noteq> []))
   \<and> (errors sp = Some [] \<longrightarrow> assertSpecHasNoErrors sp = ([], Inr ()))
   \<and> (token w argv = (evs, Inr tok)
        \<and> fetch_spec w (host argv @ ''/server/specs/oas'') (''Bearer '' @ tok) = Inr sp
        \<and> errors sp = Some []
      \<longrightarrow> cli_ts w argv =
            (evs @ [FetchSpec (host argv @ ''/server/specs/oas'') (''Bearer '' @ tok)]
               @ fst (after_gate source_ts w argv sp),
             snd (after_gate source_ts w argv sp))
        \<and> fst (after_gate source_ts w argv sp) \<noteq> []
        \<and> hd (fst (after_gate source_ts w argv sp)) =
            (case specOutFile argv of
               None \<Rightarrow> OpenApiTs sp
             | Some path \<Rightarrow>
                 if path \<noteq> [] then WriteFile (resolve w path) (JSON_stringify w sp)
                 else OpenApiTs sp)
        \<and> ((\<forall>path content. writeFile w path content = None)
             \<and> openApiTs w sp = Inr base \<and> components_schemas sp = Some obj
           \<longrightarrow> snd (cli_ts w argv) = Inr ()
             \<and> last (fst (cli_ts w argv))
                 = WriteFile (resolve w (outFile argv)) (source_ts argv base obj)))"
proof (intro conjI impI)
  show "(\<exists>e. snd (assertSpecHasNoErrors sp) = Inl e)
      \<longleftrightarrow> (\<exists>es. errors sp = Some es \<and> es \<noteq> [])"
    by (simp add: assertSpecHasNoErrors_cases split: option.splits)
next
  assume "errors sp = Some []"
  then show "assertSpecHasNoErrors sp = ([], Inr ())"
    by (simp add: assertSpecHasNoErrors_cases)
next
  assume h: "token w argv = (evs, Inr tok)
        \<and> fetch_spec w (host argv @ ''/server/specs/oas'') (''Bearer '' @ tok) = Inr sp
        \<and> errors sp = Some []"
  then have t: "token w argv = (evs, Inr tok)"
    and f: "fetch_spec w (host argv @ ''/server/specs/oas'') (''Bearer '' @ tok) = Inr sp"
    and e: "errors sp = Some []"
    by simp_all
  from e show r: "cli_ts w argv =
            (evs @ [FetchSpec (host argv @ ''/server/specs/oas'') (''Bearer '' @ tok)]
               @ fst (after_gate source_ts w argv sp),
             snd (after_gate source_ts w argv sp))"
    by (simp add: cli_ts_def run_unfold [OF t f] io_bind_Inr assertSpecHasNoErrors_cases)
  show "fst (after_gate source_ts w argv sp) \<noteq> []"
    by (simp add: after_gate_first_event)
  show "hd (fst (after_gate source_ts w argv sp)) =
            (case specOutFile argv of
               None \<Rightarrow> OpenApiTs sp
             | Some path \<Rightarrow>
                 if path \<noteq> [] then WriteFile (resolve w path) (JSON_stringify w sp)
                 else OpenApiTs sp)"
    by (simp add: after_gate_first_event)
  assume "(\<forall>path content. writeFile w path content = None)
             \<and> openApiTs w sp = Inr base \<and> components_schemas sp = Some obj"
  then have s: "snd (after_gate source_ts w argv sp) = Inr ()
       \<and> last (fst (after_gate source_ts w argv sp))
           = WriteFile (resolve w (outFile argv)) (source_ts argv base obj)"
    by (intro after_gate_success) simp_all
  with after_gate_first_event [of source_ts w argv sp]
  show "snd (cli_ts w argv) = Inr ()" and "last (fst (cli_ts w argv))
                 = WriteFile (resolve w (outFile argv)) (source_ts argv base obj)"
    by (simp_all add: r)
qed

theorem gate_raises_iff_errors_nonempty_witness:
  "assertSpecHasNoErrors \<lparr>errors = Some [], components_schemas = Some example_schemas\<rparr>
     = ([], Inr ())
   \<and> cli_ts (example_world \<lparr>errors = Some [], components_schemas = Some example_schemas\<rparr>)
        example_argv
     = ([FetchSpec ''https://cms.example/server/specs/oas'' ''Bearer secret'',
         OpenApiTs \<lparr>errors = Some [], components_schemas = Some example_schemas\<rparr>,
         WriteFile ''/cwd/directus.d.ts'' (source_ts example_argv ''B'' example_schemas)],
        Inr ())"
proof -
  let ?sp = "\<lparr>errors = Some [], components_schemas = Some example_schemas\<rparr>"
  let ?w = "example_world ?sp"
  have t: "token ?w example_argv = ([], Inr ''secret'')"
    by (simp add: token_def example_argv_def return_io_def)
  have f: "fetch_spec ?w (host example_argv @ ''/server/specs/oas'')
      (''Bearer '' @ ''secret'') = Inr ?sp"
    by (simp add: example_world_def)
  have e: "errors ?sp = Some []" by simp
  from gate_raises_iff_errors_nonempty [of ?sp ?w example_argv "[]" "''secret''"] t f e
  have g: "assertSpecHasNoErrors ?sp = ([], Inr ())"
    and r: "cli_ts ?w example_argv =
      ([] @ [FetchSpec (host example_argv @ ''/server/specs/oas'') (''Bearer '' @ ''secret'')]
         @ fst (after_gate source_ts ?w example_argv ?sp),
       snd (after_gate source_ts ?w example_argv ?sp))"
    by blast+
  have a: "after_gate source_ts ?w example_argv ?sp =
      ([OpenApiTs ?sp,
        WriteFile ''/cwd/directus.d.ts'' (source_ts example_argv ''B'' example_schemas)],
       Inr ())"
    by (simp add: after_gate_def dump_spec_def baseSource_def read_schemas_def
        await_writeFile_def call_def io_bind_def return_io_def example_world_def
        example_argv_def)
  have h: "host example_argv @ ''/server/specs/oas'' = ''https://cms.example/server/specs/oas''"
    "''Bearer '' @ ''secret'' = ''Bearer secret''"
    by (simp_all add: example_argv_def)
  from g r show ?thesis unfolding a h by simp
qed

section \<open>The assembled output\<close>










section \<open>The all-collections aggregate\<close>











text \<open>
  With the key \<^verbatim>\<open>Collections\<close> and the default names, the alias that cli.ts writes for
  the key carries the name of the directus aggregate, so that name is declared twice.
\<close>

lemma key_Collections_declares_directus_name_twice:
  "formatedSchemaKey ''Collections'' = directusTypeName example_argv
   \<and> declared (declarations_ts example_argv [(''Collections'', s)])
         (directusTypeName example_argv) = None"
  by (simp add: declared_def declarations_ts_def aggregates_def aliases_ts_def
      example_argv_def Object_keys_def formatedSchemaKey_def startsWith_def)




end
